theory Spec2Isabelle
  imports Complex_Main "HOL-Library.Word" "HOL-Library.Multiset"
begin

unbundle bit_operations_syntax

section \<open>Strings of the script\<close>

text \<open>
  A JavaScript string is a sequence of UTF-16 code units. The model uses \<open>string\<close>
  (a list of \<open>char\<close>), read as the code units 0..255 (Basic Latin and Latin-1
  Supplement); \<open>of_char c\<close> is \<open>c.charCodeAt(0)\<close>. The built-in string methods the
  script calls are written out below for that range.
\<close>

definition charCodeAt0 :: "char \<Rightarrow> int" where
  "charCodeAt0 c = of_char c"

text \<open>\<open>String.prototype.toLowerCase\<close> on one code unit: A-Z and the Latin-1 capitals
  U+00C0..U+00DE (without the multiplication sign U+00D7) move up by 32.\<close>

definition toLowerCase_char :: "char \<Rightarrow> char" where
  "toLowerCase_char c =
     (let n = (of_char c :: nat)
      in if (65 \<le> n \<and> n \<le> 90) \<or> (192 \<le> n \<and> n \<le> 222 \<and> n \<noteq> 215)
         then char_of (n + 32) else c)"

definition toLowerCase :: "string \<Rightarrow> string" where
  "toLowerCase s = map toLowerCase_char s"

text \<open>\<open>String.prototype.trim\<close> removes WhiteSpace and LineTerminator code units from
  both ends: TAB, LF, VT, FF, CR, SPACE and NO-BREAK SPACE in this range.\<close>

definition isWhiteSpace :: "char \<Rightarrow> bool" where
  "isWhiteSpace c = ((of_char c :: nat) \<in> {9, 10, 11, 12, 13, 32, 160})"

definition trimStart :: "string \<Rightarrow> string" where
  "trimStart s = dropWhile isWhiteSpace s"

definition trimEnd :: "string \<Rightarrow> string" where
  "trimEnd s = rev (dropWhile isWhiteSpace (rev s))"

definition trim :: "string \<Rightarrow> string" where
  "trim s = trimEnd (trimStart s)"

definition startsWith :: "string \<Rightarrow> string \<Rightarrow> bool" where
  "startsWith s t = (take (length t) s = t)"

definition endsWith :: "string \<Rightarrow> string \<Rightarrow> bool" where
  "endsWith s t = (length t \<le> length s \<and> drop (length s - length t) s = t)"

text \<open>\<open>s.includes(t)\<close>: \<open>t\<close> starts at some position of \<open>s\<close>.\<close>

fun includes_str :: "string \<Rightarrow> string \<Rightarrow> bool" where
  "includes_str [] t = (t = [])"
| "includes_str (c # s) t = (startsWith (c # s) t \<or> includes_str s t)"

section \<open>Data of the catalog\<close>

text \<open>A product of the remote catalog. \<open>price\<close> is a JavaScript number; the model
  takes the finite values as rationals. A missing category, category name or category
  image is the empty string (a falsy value of the script).\<close>

record category =
  name_c :: string
  image_c :: string

record product =
  id_p :: int
  title :: string
  price :: rat
  description :: string
  category :: category
  images :: "string list"

section \<open>Array.prototype.sort\<close>

text \<open>
  \<open>xs.sort(cmp)\<close> is a stable sort by the sign of the comparator. The model is the
  stable insertion sort: an element goes before the first element of the sorted rest
  that it does not compare greater than, so elements that compare equal keep their
  order.
\<close>

fun insert_by :: "('a \<Rightarrow> 'a \<Rightarrow> 'n::{zero,linorder}) \<Rightarrow> 'a \<Rightarrow> 'a list \<Rightarrow> 'a list" where
  "insert_by cmp x [] = [x]"
| "insert_by cmp x (y # ys) =
     (if cmp x y \<le> 0 then x # y # ys else y # insert_by cmp x ys)"

definition array_sort :: "('a \<Rightarrow> 'a \<Rightarrow> 'n::{zero,linorder}) \<Rightarrow> 'a list \<Rightarrow> 'a list" where
  "array_sort cmp xs = foldr (insert_by cmp) xs []"

text \<open>What the script takes from the browser: the locale-aware string comparison
  \<open>a.localeCompare(b)\<close> (negative, zero or positive) and the URL parser, which gives the
  protocol of a URL (\<open>new URL(s).protocol\<close>) or throws (\<open>None\<close>).\<close>

record platform =
  localeCompare :: "string \<Rightarrow> string \<Rightarrow> int"
  URL_protocol :: "string \<Rightarrow> string option"

text \<open>\<open>applySorting\<close> on the array \<open>filteredProducts\<close>.\<close>

definition applySorting_list :: "platform \<Rightarrow> string \<Rightarrow> product list \<Rightarrow> product list" where
  "applySorting_list pf sortType xs =
     (if sortType = ''price-asc'' then array_sort (\<lambda>a b. price a - price b) xs
      else if sortType = ''price-desc'' then array_sort (\<lambda>a b. price b - price a) xs
      else if sortType = ''name-asc''
        then array_sort (\<lambda>a b. localeCompare pf (title a) (title b)) xs
      else if sortType = ''name-desc''
        then array_sort (\<lambda>a b. localeCompare pf (title b) (title a)) xs
      else xs)"

section \<open>Image resolver\<close>

text \<open>\<open>encodeURIComponent\<close>: the unreserved characters (letters, digits and
  \<open>- _ . ! ~ * ' ( )\<close>) stay; every other code unit is written as the percent-escaped
  bytes of its UTF-8 encoding (one byte below 128, two bytes from 128 to 255).\<close>

definition hexDigit :: "nat \<Rightarrow> char" where
  "hexDigit k = ''0123456789ABCDEF'' ! (k mod 16)"

definition percentByte :: "nat \<Rightarrow> string" where
  "percentByte b = [CHR ''%'', hexDigit (b div 16), hexDigit b]"

definition uriUnreserved :: "char \<Rightarrow> bool" where
  "uriUnreserved c =
     (let n = (of_char c :: nat)
      in (65 \<le> n \<and> n \<le> 90) \<or> (97 \<le> n \<and> n \<le> 122) \<or> (48 \<le> n \<and> n \<le> 57)
         \<or> n \<in> {45, 95, 46, 33, 126, 42, 39, 40, 41})"

definition encodeURIComponent_char :: "char \<Rightarrow> string" where
  "encodeURIComponent_char c =
     (let n = (of_char c :: nat)
      in if uriUnreserved c then [c]
         else if n < 128 then percentByte n
         else percentByte (192 + n div 64) @ percentByte (128 + n mod 64))"

definition encodeURIComponent :: "string \<Rightarrow> string" where
  "encodeURIComponent s = concat (map encodeURIComponent_char s)"

text \<open>The hash of \<open>getImageWithStrategies\<close>:
  \<open>originalUrl.split('').reduce((a, b) => ((a << 5) - a) + b.charCodeAt(0), 0)\<close>.
  \<open>a << 5\<close> converts \<open>a\<close> to a signed 32-bit integer and shifts it in 32 bits; the
  subtraction and the addition are on numbers and are not truncated, so the
  accumulator is an integer that grows by less than \<open>2 ^ 32\<close> in each step (exact as a
  double for every URL of less than two million characters).\<close>

definition shl5 :: "int \<Rightarrow> int" where
  "shl5 a = sint (push_bit 5 (word_of_int a :: 32 word))"

definition hash_step :: "int \<Rightarrow> char \<Rightarrow> int" where
  "hash_step a b = (shl5 a - a) + charCodeAt0 b"

definition url_hash :: "string \<Rightarrow> int" where
  "url_hash originalUrl = foldl hash_step 0 originalUrl"

definition proxyA :: "string \<Rightarrow> string" where
  "proxyA originalUrl = ''https://wsrv.nl/?url='' @ encodeURIComponent originalUrl @ ''&default=1''"

definition proxyB :: "string \<Rightarrow> string" where
  "proxyB originalUrl =
     ''https://images.weserv.nl/?url='' @ encodeURIComponent originalUrl @ ''&default=1''"

definition corsRelay :: "string \<Rightarrow> string" where
  "corsRelay originalUrl = ''https://corsproxy.io/?'' @ encodeURIComponent originalUrl"

text \<open>The array \<open>strategies\<close> of \<open>getImageWithStrategies\<close> (three entries) and the
  one of \<open>handleImageError\<close> (four entries).\<close>

definition strategies_initial :: "string \<Rightarrow> string list" where
  "strategies_initial originalUrl = [originalUrl, proxyA originalUrl, proxyB originalUrl]"

definition strategies_fallback :: "string \<Rightarrow> string list" where
  "strategies_fallback originalUrl =
     [originalUrl, proxyA originalUrl, proxyB originalUrl, corsRelay originalUrl]"

definition getImageWithStrategies :: "string \<Rightarrow> string" where
  "getImageWithStrategies originalUrl =
     (if originalUrl = [] then []
      else let hash = url_hash originalUrl;
               strategies = strategies_initial originalUrl
           in strategies ! nat (\<bar>hash\<bar> mod int (length strategies)))"

text \<open>An image element with what the handler reads and writes: its source, its class
  list, its \<open>style.display\<close>, its \<open>onerror\<close> handler, and the
  \<open>.product-image-wrapper\<close> element it was rendered in (none for a category image).
  The handler is either the compiled call \<open>handleImageError(this, u)\<close> (\<open>Some u\<close>) or
  absent (\<open>None\<close>: the text of the attribute did not compile); an element with any
  other script as its handler is not a value of this type. The attribute
  \<open>data-attempt\<close> holds a decimal numeral and is kept as its number (\<open>None\<close>: the
  attribute is absent).\<close>

datatype wrapper_content = ImageAndOverlay | ImagePlaceholder

record wrapper_elem =
  data_image_index :: nat
  data_product_id :: int
  data_attempt :: "nat option"
  innerHTML_w :: wrapper_content

record img_elem =
  src :: string
  classList :: "string list"
  style_display :: string
  onerror :: "string option"
  wrapper :: "wrapper_elem option"

text \<open>\<open>img.closest('.product-image-wrapper')\<close>: once the wrapper's content has been
  replaced by the placeholder the image is detached and has no ancestor.\<close>

definition closest_wrapper :: "img_elem \<Rightarrow> wrapper_elem option" where
  "closest_wrapper img =
     (case wrapper img of
        None \<Rightarrow> None
      | Some w \<Rightarrow> if innerHTML_w w = ImagePlaceholder then None else Some w)"

definition handleImageError :: "img_elem \<Rightarrow> string \<Rightarrow> img_elem" where
  "handleImageError img originalUrl =
     (if ''image-error'' \<in> set (classList img) then img
      else case closest_wrapper img of
        None \<Rightarrow>
          if ''category-image'' \<in> set (classList img)
          then img\<lparr>style_display := ''none''\<rparr> else img
      | Some w \<Rightarrow>
          let attempt = (case data_attempt w of None \<Rightarrow> 0 | Some a \<Rightarrow> a) + 1;
              strategies = strategies_fallback originalUrl
          in if attempt < length strategies
             then img\<lparr>wrapper := Some (w\<lparr>data_attempt := Some attempt\<rparr>),
                      src := strategies ! attempt\<rparr>
             else img\<lparr>classList := classList img @ [''image-error''],
                      wrapper := Some (w\<lparr>innerHTML_w := ImagePlaceholder\<rparr>)\<rparr>)"

text \<open>A load failure of an element runs its \<open>onerror\<close> handler, if it has one; a
  sequence of failures runs it each time.\<close>

definition error_event :: "img_elem \<Rightarrow> img_elem" where
  "error_event img =
     (case onerror img of
        None \<Rightarrow> img
      | Some originalUrl \<Rightarrow> handleImageError img originalUrl)"

definition error_events :: "nat \<Rightarrow> img_elem \<Rightarrow> img_elem" where
  "error_events n img = (error_event ^^ n) img"

definition attempt_index :: "img_elem \<Rightarrow> nat" where
  "attempt_index img =
     (case wrapper img of
        None \<Rightarrow> 0
      | Some w \<Rightarrow> (case data_attempt w of None \<Rightarrow> 0 | Some a \<Rightarrow> a))"

section \<open>Rows of the table\<close>

text \<open>\<open>img.trim().replace(/^\["|"\]$/g, '')\<close>: a leading \<open>["\<close> and, in what follows
  it, a trailing \<open>"]\<close> are removed.\<close>

definition cleanImg :: "string \<Rightarrow> string" where
  "cleanImg img =
     (let t = trim img;
          t1 = (if startsWith t [CHR 0x5B, CHR 0x22] then drop 2 t else t)
      in if endsWith t1 [CHR 0x22, CHR 0x5D] then take (length t1 - 2) t1 else t1)"

definition validImage :: "platform \<Rightarrow> string \<Rightarrow> bool" where
  "validImage pf img =
     (if img = [] then False
      else let c = cleanImg img
           in case URL_protocol pf c of
                Some protocol \<Rightarrow> protocol = ''http:'' \<or> protocol = ''https:''
              | None \<Rightarrow> startsWith c ''http://'' \<or> startsWith c ''https://'')"

text \<open>
  The row is written as markup and parsed by the browser. The text cells and the
  \<open>alt\<close> and \<open>data-original-url\<close> attributes go through \<open>escapeHtml\<close>; the image URLs
  in \<open>src="..."\<close> and in \<open>onerror="handleImageError(this, '...')"\<close> are pasted as they
  are. The value of a double-quoted attribute ends at the first quotation mark of its
  text. (Character references are not decoded here: the URLs below hold no ampersand
  but the one of \<open>&default=1\<close>, which starts none.)
\<close>

definition attribute_value :: "string \<Rightarrow> string" where
  "attribute_value s = takeWhile (\<lambda>c. c \<noteq> CHR 0x22) s"

text \<open>A code unit that stands for itself both in a double-quoted attribute value and
  in a single-quoted JavaScript string literal: no control character, quotation mark,
  ampersand, apostrophe or backslash.\<close>

definition intact_char :: "char \<Rightarrow> bool" where
  "intact_char c =
     (let n = (of_char c :: nat) in 32 \<le> n \<and> n \<noteq> 34 \<and> n \<noteq> 38 \<and> n \<noteq> 39 \<and> n \<noteq> 92)"

text \<open>
  What the attribute \<open>onerror="handleImageError(this, 'url')"\<close> becomes when \<open>url\<close> is
  pasted into it:
  \<^item> every code unit of \<open>url\<close> is intact: the handler calls
    \<open>handleImageError(this, url)\<close>;
  \<^item> \<open>url\<close> is intact code units followed by one quotation mark: the attribute value
    ends at that mark, its text \<open>handleImageError(this, 'url\<close> is an unterminated string
    literal, so no handler is compiled; what is left of the template becomes
    attributes with odd names of the same tag;
  \<^item> anything else (an apostrophe, a backslash, an ampersand, a control character, a
    quotation mark inside): the markup is parsed in a way this model does not follow.
\<close>

datatype onerror_attr = Calls string | Broken | Unparsed

definition inline_onerror :: "string \<Rightarrow> onerror_attr" where
  "inline_onerror url =
     (if list_all intact_char url then Calls url
      else if url \<noteq> [] \<and> last url = CHR 0x22 \<and> list_all intact_char (butlast url)
        then Broken
      else Unparsed)"

definition with_onerror :: "onerror_attr \<Rightarrow> (string option \<Rightarrow> 'a) \<Rightarrow> 'a option" where
  "with_onerror h f =
     (case h of Calls u \<Rightarrow> Some (f (Some u)) | Broken \<Rightarrow> Some (f None) | Unparsed \<Rightarrow> None)"

text \<open>A row keeps the product its text cells are filled from and the image elements
  it holds. Rendering gives \<open>None\<close> where the markup is parsed in a way the model does
  not follow.\<close>

record table_row =
  row_product :: product
  category_image :: "img_elem option"
  product_images :: "img_elem list"

text \<open>The image of the category cell, rendered when \<open>category.image\<close> is not empty.\<close>

definition categoryImage :: "category \<Rightarrow> img_elem option" where
  "categoryImage c =
     with_onerror (inline_onerror (image_c c))
       (\<lambda>h. \<lparr>src = attribute_value (getImageWithStrategies (image_c c)),
              classList = [''category-image''], style_display = [], onerror = h,
              wrapper = None\<rparr>)"

definition productImage :: "product \<Rightarrow> nat \<Rightarrow> string \<Rightarrow> img_elem option" where
  "productImage p index img =
     (let c = cleanImg img;
          proxiedUrl = getImageWithStrategies c
      in with_onerror (inline_onerror c)
           (\<lambda>h. \<lparr>src = attribute_value proxiedUrl, classList = [''product-image''],
                  style_display = [], onerror = h,
                  wrapper = Some \<lparr>data_image_index = index, data_product_id = id_p p,
                                   data_attempt = Some 0,
                                   innerHTML_w = ImageAndOverlay\<rparr>\<rparr>))"

definition createProductRow :: "platform \<Rightarrow> product \<Rightarrow> table_row option" where
  "createProductRow pf p =
     (let validImages = filter (validImage pf) (images p);
          category_cell = (if image_c (category p) \<noteq> []
                           then map_option Some (categoryImage (category p))
                           else Some None);
          image_cell = those (map (\<lambda>(index, img). productImage p index img)
                                  (enumerate 0 validImages))
      in case (category_cell, image_cell) of
           (Some ci, Some pis) \<Rightarrow>
             Some \<lparr>row_product = p, category_image = ci, product_images = pis\<rparr>
         | _ \<Rightarrow> None)"

section \<open>State of the page\<close>

datatype page_item =
    PrevButton bool int
  | PageLink int bool
  | Ellipsis
  | NextButton bool int

text \<open>The globals of the script and the parts of the document it writes. The page
  info text is kept as its three numbers (start, end, total); the table body is \<open>None\<close>
  when the markup of one of its rows is parsed in a way the model does not follow.\<close>

record app_state =
  allProducts :: "product list"
  filteredProducts :: "product list"
  currentPage :: int
  itemsPerPage :: int
  currentSort :: string
  productTableBody :: "table_row list option"
  pagination :: "page_item list"
  pageInfo :: "(int \<times> int \<times> int) option"
  noResults_display :: string
  tableContainer_display :: string
  scrollIntoView_calls :: nat

text \<open>\<open>Math.ceil(filteredProducts.length / itemsPerPage)\<close>, for an \<open>itemsPerPage\<close>
  other than 0 (where the script computes Infinity or NaN).\<close>

definition totalPages :: "nat \<Rightarrow> int \<Rightarrow> int" where
  "totalPages len ipp = \<lceil>(of_nat len :: rat) / of_int ipp\<rceil>"

text \<open>\<open>xs.slice(start, end)\<close>: a negative index counts from the end, and both are
  cut to the array.\<close>

definition slice :: "'a list \<Rightarrow> int \<Rightarrow> int \<Rightarrow> 'a list" where
  "slice xs start end' =
     (let len = int (length xs);
          k = (if start < 0 then max (len + start) 0 else min start len);
          final = (if end' < 0 then max (len + end') 0 else min end' len)
      in take (nat (final - k)) (drop (nat k) xs))"

definition applySorting :: "platform \<Rightarrow> string \<Rightarrow> app_state \<Rightarrow> app_state" where
  "applySorting pf sortType s =
     s\<lparr>filteredProducts := applySorting_list pf sortType (filteredProducts s)\<rparr>"

definition showNoResults :: "bool \<Rightarrow> app_state \<Rightarrow> app_state" where
  "showNoResults show' s =
     (if show' then s\<lparr>noResults_display := ''block'', tableContainer_display := ''none''\<rparr>
      else s\<lparr>noResults_display := ''none'', tableContainer_display := ''block''\<rparr>)"

text \<open>The page numbers \<open>startPage\<close> and \<open>endPage\<close> of \<open>renderPagination\<close>.\<close>

definition pageWindow :: "int \<Rightarrow> int \<Rightarrow> int \<times> int" where
  "pageWindow cur total_pages =
     (let maxVisiblePages = 5;
          startPage = max 1 (cur - maxVisiblePages div 2);
          endPage = min total_pages (startPage + maxVisiblePages - 1);
          startPage' = (if endPage - startPage < maxVisiblePages - 1
                        then max 1 (endPage - maxVisiblePages + 1) else startPage)
      in (startPage', endPage))"

definition firstLinks :: "int \<Rightarrow> page_item list" where
  "firstLinks startPage =
     (if startPage > 1
      then PageLink 1 False # (if startPage > 2 then [Ellipsis] else [])
      else [])"

definition windowLinks :: "int \<Rightarrow> int \<Rightarrow> int \<Rightarrow> page_item list" where
  "windowLinks cur startPage endPage = map (\<lambda>i. PageLink i (i = cur)) [startPage..endPage]"

definition lastLinks :: "int \<Rightarrow> int \<Rightarrow> page_item list" where
  "lastLinks endPage total_pages =
     (if endPage < total_pages
      then (if endPage < total_pages - 1 then [Ellipsis] else []) @ [PageLink total_pages False]
      else [])"

definition paginationHTML :: "int \<Rightarrow> int \<Rightarrow> page_item list" where
  "paginationHTML cur total_pages =
     (let (startPage, endPage) = pageWindow cur total_pages
      in [PrevButton (cur = 1) (cur - 1)] @ firstLinks startPage
         @ windowLinks cur startPage endPage @ lastLinks endPage total_pages
         @ [NextButton (cur = total_pages) (cur + 1)])"

definition renderPagination :: "app_state \<Rightarrow> app_state" where
  "renderPagination s =
     (let total_pages = totalPages (length (filteredProducts s)) (itemsPerPage s)
      in if total_pages \<le> 1 then s\<lparr>pagination := []\<rparr>
         else s\<lparr>pagination := paginationHTML (currentPage s) total_pages\<rparr>)"

definition updatePageInfo :: "app_state \<Rightarrow> app_state" where
  "updatePageInfo s =
     (let startIndex = (currentPage s - 1) * itemsPerPage s + 1;
          endIndex = min (currentPage s * itemsPerPage s) (int (length (filteredProducts s)));
          total_items = int (length (filteredProducts s))
      in s\<lparr>pageInfo := Some (startIndex, endIndex, total_items)\<rparr>)"

definition renderProducts :: "platform \<Rightarrow> app_state \<Rightarrow> app_state" where
  "renderProducts pf s =
     (if length (filteredProducts s) = 0 then showNoResults True s
      else let s1 = showNoResults False s;
               startIndex = (currentPage s1 - 1) * itemsPerPage s1;
               endIndex = startIndex + itemsPerPage s1;
               productsToShow = slice (filteredProducts s1) startIndex endIndex;
               s2 = s1\<lparr>productTableBody := those (map (createProductRow pf) productsToShow)\<rparr>
           in updatePageInfo (renderPagination s2))"

definition handleSearch :: "platform \<Rightarrow> string \<Rightarrow> app_state \<Rightarrow> app_state" where
  "handleSearch pf searchTerm s =
     (let term = trim (toLowerCase searchTerm);
          s1 = (if term = [] then s\<lparr>filteredProducts := allProducts s\<rparr>
                else s\<lparr>filteredProducts :=
                         filter (\<lambda>product. includes_str (toLowerCase (title product)) term)
                                (allProducts s)\<rparr>);
          s2 = (if currentSort s1 \<noteq> [] then applySorting pf (currentSort s1) s1 else s1)
      in renderProducts pf (s2\<lparr>currentPage := 1\<rparr>))"

definition handleSort :: "platform \<Rightarrow> app_state \<Rightarrow> app_state" where
  "handleSort pf s =
     (if currentSort s \<noteq> []
      then renderProducts pf ((applySorting pf (currentSort s) s)\<lparr>currentPage := 1\<rparr>)
      else s)"

text \<open>The listeners of \<open>initializeEventListeners\<close>: a change of the sort selector to
  the option value \<open>v\<close>, and a change of the page size selector to the parsed value
  \<open>n\<close>.\<close>

definition sortOptions_change :: "platform \<Rightarrow> string \<Rightarrow> app_state \<Rightarrow> app_state" where
  "sortOptions_change pf v s = handleSort pf (s\<lparr>currentSort := v\<rparr>)"

definition itemsPerPage_change :: "platform \<Rightarrow> int \<Rightarrow> app_state \<Rightarrow> app_state" where
  "itemsPerPage_change pf n s = renderProducts pf (s\<lparr>itemsPerPage := n, currentPage := 1\<rparr>)"

definition changePage :: "platform \<Rightarrow> int \<Rightarrow> app_state \<Rightarrow> app_state" where
  "changePage pf page s =
     (let total_pages = totalPages (length (filteredProducts s)) (itemsPerPage s)
      in if page < 1 \<or> page > total_pages then s
         else let s1 = renderProducts pf (s\<lparr>currentPage := page\<rparr>)
              in s1\<lparr>scrollIntoView_calls := scrollIntoView_calls s1 + 1\<rparr>)"

text \<open>The page numbers of the numbered links of a pagination control, in the order
  they are listed.\<close>

fun link_numbers :: "page_item list \<Rightarrow> int list" where
  "link_numbers [] = []"
| "link_numbers (PageLink n a # xs) = n # link_numbers xs"
| "link_numbers (x # xs) = link_numbers xs"

section \<open>Example inputs\<close>

text \<open>A platform whose \<open>localeCompare\<close> finds all strings equal and whose URL parser
  accepts what starts with \<open>http:\<close> or \<open>https:\<close>; a product without images; a page
  state showing nothing yet.\<close>

definition example_platform :: platform where
  "example_platform =
     \<lparr>localeCompare = (\<lambda>a b. 0),
      URL_protocol = (\<lambda>s. if startsWith s ''https:'' then Some ''https:''
                           else if startsWith s ''http:'' then Some ''http:'' else None)\<rparr>"

definition example_product :: "int \<Rightarrow> string \<Rightarrow> rat \<Rightarrow> product" where
  "example_product i t p =
     \<lparr>id_p = i, title = t, price = p, description = [],
      category = \<lparr>name_c = [], image_c = []\<rparr>, images = []\<rparr>"

definition example_state :: "product list \<Rightarrow> app_state" where
  "example_state ps =
     \<lparr>allProducts = ps, filteredProducts = ps, currentPage = 1, itemsPerPage = 10,
      currentSort = [], productTableBody = Some [], pagination = [], pageInfo = None,
      noResults_display = [], tableContainer_display = [], scrollIntoView_calls = 0\<rparr>"

section \<open>Facts about the string functions and the sort\<close>

lemma includes_iff: "includes_str s t \<longleftrightarrow> (\<exists>a b. s = a @ t @ b)"
proof (induction s)
  case Nil
  then show ?case by auto
next
  case (Cons c s)
  have "startsWith (c # s) t \<longleftrightarrow> (\<exists>b. c # s = t @ b)"
    unfolding startsWith_def
    by (metis append_eq_conv_conj append_take_drop_id)
  moreover have "(\<exists>a b. c # s = a @ t @ b) \<longleftrightarrow> (\<exists>b. c # s = t @ b) \<or> (\<exists>a b. s = a @ t @ b)"
  proof
    assume "\<exists>a b. c # s = a @ t @ b"
    then obtain a b where ab: "c # s = a @ t @ b" by blast
    show "(\<exists>b. c # s = t @ b) \<or> (\<exists>a b. s = a @ t @ b)"
    proof (cases a)
      case Nil
      with ab show ?thesis by auto
    next
      case (Cons a0 a')
      with ab have "s = a' @ t @ b" by simp
      then show ?thesis by blast
    qed
  next
    assume "(\<exists>b. c # s = t @ b) \<or> (\<exists>a b. s = a @ t @ b)"
    then show "\<exists>a b. c # s = a @ t @ b"
    proof
      assume "\<exists>b. c # s = t @ b"
      then obtain b where "c # s = [] @ t @ b" by auto
      then show ?thesis by blast
    next
      assume "\<exists>a b. s = a @ t @ b"
      then obtain a b where "c # s = (c # a) @ t @ b" by auto
      then show ?thesis by blast
    qed
  qed
  ultimately show ?case using Cons.IH by simp
qed

lemma mset_insert_by: "mset (insert_by cmp x ys) = add_mset x (mset ys)"
  by (induction ys) auto

lemma mset_array_sort: "mset (array_sort cmp xs) = mset xs"
  unfolding array_sort_def by (induction xs) (auto simp: mset_insert_by)

lemma mset_applySorting_list: "mset (applySorting_list pf k xs) = mset xs"
  unfolding applySorting_list_def by (simp add: mset_array_sort)

section \<open>Paginator: the number of pages\<close>

lemma totalPages_bounds:
  assumes p: "0 < p"
  shows "int L \<le> totalPages L p * p" and "(totalPages L p - 1) * p < int L"
proof -
  define x :: rat where "x = of_nat L / of_int p"
  have c: "totalPages L p = \<lceil>x\<rceil>" by (simp add: totalPages_def x_def)
  have pr: "(0::rat) < of_int p" using p by simp
  have xp: "x * of_int p = of_nat L" using pr by (simp add: x_def)
  have "x \<le> of_int \<lceil>x\<rceil>" by (rule le_of_int_ceiling)
  then have "x * of_int p \<le> of_int \<lceil>x\<rceil> * of_int p"
    using pr by (intro mult_right_mono) simp_all
  then have "(of_int (int L) :: rat) \<le> of_int (\<lceil>x\<rceil> * p)" by (simp add: xp)
  then show "int L \<le> totalPages L p * p" unfolding c by (simp only: of_int_le_iff)
  have "of_int \<lceil>x\<rceil> - 1 < x" using ceiling_correct [of x] by simp
  then have "(of_int \<lceil>x\<rceil> - 1) * of_int p < x * of_int p"
    using pr by (intro mult_strict_right_mono) simp_all
  then have "(of_int ((\<lceil>x\<rceil> - 1) * p) :: rat) < of_int (int L)" by (simp add: xp)
  then show "(totalPages L p - 1) * p < int L" unfolding c by (simp only: of_int_less_iff)
qed

lemma totalPages_zero_iff: "0 < p \<Longrightarrow> totalPages L p = 0 \<longleftrightarrow> L = 0"
proof
  assume p: "0 < p" and z: "totalPages L p = 0"
  from totalPages_bounds(1) [OF p, of L] z show "L = 0" by simp
next
  assume "0 < p" "L = 0"
  then show "totalPages L p = 0" by (simp add: totalPages_def)
qed

lemma totalPages_div: "totalPages L p = - ((- int L) div p)"
proof -
  have "\<lceil>(of_int (int L) :: rat) / of_int p\<rceil> = - ((- int L) div p)"
    by (rule ceiling_divide_eq_div)
  then show ?thesis by (simp add: totalPages_def)
qed

text \<open>
  C2 (as amended). For every view length \<open>L\<close> and every page size \<open>p > 0\<close> the number of
  pages computed by \<open>renderPagination\<close> and \<open>changePage\<close> is the ceiling of \<open>L / p\<close>: the
  least integer \<open>n\<close> with \<open>L \<le> n * p\<close>. No minimum of one page is applied: it is 0
  exactly when the view is empty, and at least 1 otherwise.
\<close>

theorem totalPages_ceiling:
  "0 < p \<Longrightarrow>
     int L \<le> totalPages L p * p \<and> (totalPages L p - 1) * p < int L
     \<and> (totalPages L p = 0) = (L = 0) \<and> (0 < L \<longrightarrow> 1 \<le> totalPages L p)"
proof -
  assume p: "0 < p"
  have z: "(totalPages L p = 0) = (L = 0)" by (rule totalPages_zero_iff [OF p])
  have "0 < L \<longrightarrow> 1 \<le> totalPages L p"
  proof
    assume "0 < L"
    with totalPages_bounds(1) [OF p, of L] have "0 < totalPages L p * p" by simp
    with p have "0 < totalPages L p" by (simp add: zero_less_mult_iff)
    then show "1 \<le> totalPages L p" by simp
  qed
  with z totalPages_bounds [OF p, of L] show ?thesis by simp
qed

theorem totalPages_ceiling_witness:
  "(0::int) < 10 \<and> (0::nat) < 25 \<and> int 25 \<le> totalPages 25 10 * 10 \<and> (totalPages 25 10 - 1) * 10 < int 25
   \<and> totalPages 25 10 = 3"
proof -
  have h: "(0::int) < 10" by simp
  have v: "totalPages 25 10 = 3" by (simp add: totalPages_div)
  show ?thesis using totalPages_ceiling [OF h, of 25] v by simp
qed

text \<open>The sentence of the specification fails on the empty view: the script computes 0 pages.\<close>

theorem totalPages_minimum_counterexample:
  "(0::int) < 10 \<and> \<not> 1 \<le> totalPages 0 10"
  by (simp add: totalPages_def)

section \<open>Image resolver: the initial URL\<close>

text \<open>
  C6. The initial URL of an image is a function of the original URL alone (the hash
  reads nothing else), and it is always one of the first three strategies: the URL
  itself, proxy variant A or proxy variant B, at the index \<open>|hash| mod 3\<close>.
\<close>

theorem getImageWithStrategies_first_three:
  "getImageWithStrategies u = strategies_initial u ! nat (\<bar>url_hash u\<bar> mod 3)
   \<and> nat (\<bar>url_hash u\<bar> mod 3) < length (strategies_initial u)
   \<and> getImageWithStrategies u \<in> {u, proxyA u, proxyB u}"
proof -
  have len: "length (strategies_initial u) = 3" by (simp add: strategies_initial_def)
  have idx: "nat (\<bar>url_hash u\<bar> mod 3) < 3" by simp
  have eq: "getImageWithStrategies u = strategies_initial u ! nat (\<bar>url_hash u\<bar> mod 3)"
  proof (cases "u = []")
    case True
    then show ?thesis
      by (simp add: getImageWithStrategies_def strategies_initial_def url_hash_def)
  next
    case False
    then show ?thesis by (simp add: getImageWithStrategies_def Let_def len)
  qed
  have "strategies_initial u ! nat (\<bar>url_hash u\<bar> mod 3) \<in> set (strategies_initial u)"
    using idx len by (metis nth_mem)
  then have "getImageWithStrategies u \<in> {u, proxyA u, proxyB u}"
    unfolding eq by (simp add: strategies_initial_def)
  with eq idx len show ?thesis by simp
qed

section \<open>What rendering leaves alone\<close>

lemma showNoResults_frame:
  "filteredProducts (showNoResults b s) = filteredProducts s"
  "currentPage (showNoResults b s) = currentPage s"
  "itemsPerPage (showNoResults b s) = itemsPerPage s"
  "currentSort (showNoResults b s) = currentSort s"
  "allProducts (showNoResults b s) = allProducts s"
  by (simp_all add: showNoResults_def)

lemma renderPagination_frame:
  "filteredProducts (renderPagination s) = filteredProducts s"
  "currentPage (renderPagination s) = currentPage s"
  "itemsPerPage (renderPagination s) = itemsPerPage s"
  "currentSort (renderPagination s) = currentSort s"
  "allProducts (renderPagination s) = allProducts s"
  by (simp_all add: renderPagination_def Let_def)

lemma updatePageInfo_frame:
  "filteredProducts (updatePageInfo s) = filteredProducts s"
  "currentPage (updatePageInfo s) = currentPage s"
  "itemsPerPage (updatePageInfo s) = itemsPerPage s"
  "currentSort (updatePageInfo s) = currentSort s"
  "allProducts (updatePageInfo s) = allProducts s"
  by (simp_all add: updatePageInfo_def Let_def)

lemma renderProducts_frame:
  "filteredProducts (renderProducts pf s) = filteredProducts s"
  "currentPage (renderProducts pf s) = currentPage s"
  "itemsPerPage (renderProducts pf s) = itemsPerPage s"
  "currentSort (renderProducts pf s) = currentSort s"
  "allProducts (renderProducts pf s) = allProducts s"
  by (simp_all add: renderProducts_def Let_def showNoResults_frame renderPagination_frame
      updatePageInfo_frame)

lemma applySorting_frame:
  "currentPage (applySorting pf k s) = currentPage s"
  "itemsPerPage (applySorting pf k s) = itemsPerPage s"
  "currentSort (applySorting pf k s) = currentSort s"
  "allProducts (applySorting pf k s) = allProducts s"
  by (simp_all add: applySorting_def)

lemma handleSearch_filtered:
  "filteredProducts (handleSearch pf t s) =
     applySorting_list pf (currentSort s)
       (if trim (toLowerCase t) = [] then allProducts s
        else filter (\<lambda>product. includes_str (toLowerCase (title product)) (trim (toLowerCase t)))
               (allProducts s))"
  by (simp add: handleSearch_def Let_def renderProducts_frame(1) applySorting_def
      applySorting_list_def)

lemma applySorting_list_other:
  "k \<notin> {''price-asc'', ''price-desc'', ''name-asc'', ''name-desc''} \<Longrightarrow>
   applySorting_list pf k xs = xs"
  by (simp add: applySorting_list_def)

section \<open>Query engine: the search\<close>

text \<open>
  C1 (as amended). For every catalog and search term \<open>t\<close>, the view left by
  \<open>handleSearch\<close> is no longer than the catalog and holds only products of the
  catalog. When the lowercased, trimmed \<open>t\<close> is empty the view is the whole catalog
  in the order of the current sort: the original order when the sort key is not one of
  the four sort orders, a reordering of the catalog otherwise. When it is not empty the
  view holds exactly the products whose lowercased title contains the lowercased, trimmed
  \<open>t\<close> as a substring.
\<close>

theorem handleSearch_view:
  "length (filteredProducts (handleSearch pf t s)) \<le> length (allProducts s)
   \<and> set (filteredProducts (handleSearch pf t s)) \<subseteq> set (allProducts s)
   \<and> (trim (toLowerCase t) = [] \<longrightarrow>
        filteredProducts (handleSearch pf t s)
          = applySorting_list pf (currentSort s) (allProducts s)
        \<and> mset (filteredProducts (handleSearch pf t s)) = mset (allProducts s))
   \<and> (trim (toLowerCase t) = []
        \<and> currentSort s \<notin> {''price-asc'', ''price-desc'', ''name-asc'', ''name-desc''} \<longrightarrow>
        filteredProducts (handleSearch pf t s) = allProducts s)
   \<and> (trim (toLowerCase t) \<noteq> [] \<longrightarrow>
        mset (filteredProducts (handleSearch pf t s))
          = filter_mset (\<lambda>p. includes_str (toLowerCase (title p)) (trim (toLowerCase t)))
              (mset (allProducts s))
        \<and> (\<forall>p \<in> set (filteredProducts (handleSearch pf t s)).
              \<exists>a b. toLowerCase (title p) = a @ trim (toLowerCase t) @ b))"
proof -
  let ?trm = "trim (toLowerCase t)"
  let ?match = "\<lambda>p. includes_str (toLowerCase (title p)) ?trm"
  let ?sel = "if ?trm = [] then allProducts s else filter ?match (allProducts s)"
  let ?view = "filteredProducts (handleSearch pf t s)"
  have m: "mset ?view = mset ?sel"
    unfolding handleSearch_filtered by (rule mset_applySorting_list)
  have sel_len: "length ?sel \<le> length (allProducts s)" by simp
  have "length ?view = length ?sel" using m by (rule mset_eq_length)
  then have 1: "length ?view \<le> length (allProducts s)" using sel_len by simp
  have st: "set ?view = set ?sel" using m by (rule mset_eq_setD)
  then have 2: "set ?view \<subseteq> set (allProducts s)" by auto
  have 3: "?trm = [] \<longrightarrow> ?view = applySorting_list pf (currentSort s) (allProducts s)
            \<and> mset ?view = mset (allProducts s)"
    by (simp add: handleSearch_filtered mset_applySorting_list)
  have 4: "?trm = [] \<and> currentSort s \<notin> {''price-asc'', ''price-desc'', ''name-asc'', ''name-desc''}
            \<longrightarrow> ?view = allProducts s"
    using applySorting_list_other [of "currentSort s" pf "allProducts s"]
    by (simp add: handleSearch_filtered)
  have 5: "?trm \<noteq> [] \<longrightarrow> mset ?view = filter_mset ?match (mset (allProducts s))
            \<and> (\<forall>p \<in> set ?view. \<exists>a b. toLowerCase (title p) = a @ ?trm @ b)"
  proof
    assume ne: "?trm \<noteq> []"
    have a: "mset ?view = filter_mset ?match (mset (allProducts s))" using m ne by simp
    have "\<forall>p \<in> set ?view. ?match p" using st ne by simp
    then have "\<forall>p \<in> set ?view. \<exists>a b. toLowerCase (title p) = a @ ?trm @ b"
      by (simp add: includes_iff)
    with a show "mset ?view = filter_mset ?match (mset (allProducts s))
            \<and> (\<forall>p \<in> set ?view. \<exists>a b. toLowerCase (title p) = a @ ?trm @ b)" by simp
  qed
  from 1 2 3 4 5 show ?thesis by blast
qed

theorem handleSearch_view_witness:
  "trim (toLowerCase '' sH '') = ''sh''
   \<and> filteredProducts (handleSearch example_platform '' sH ''
        (example_state [example_product 1 ''Shirt'' 2, example_product 2 ''hat'' 1]))
      = [example_product 1 ''Shirt'' 2]
   \<and> length (filteredProducts (handleSearch example_platform '' sH ''
        (example_state [example_product 1 ''Shirt'' 2, example_product 2 ''hat'' 1]))) \<le> 2
   \<and> trim (toLowerCase ''  '') = []
   \<and> currentSort (example_state [example_product 1 ''Shirt'' 2, example_product 2 ''hat'' 1])
        \<notin> {''price-asc'', ''price-desc'', ''name-asc'', ''name-desc''}
   \<and> filteredProducts (handleSearch example_platform ''  ''
        (example_state [example_product 1 ''Shirt'' 2, example_product 2 ''hat'' 1]))
      = [example_product 1 ''Shirt'' 2, example_product 2 ''hat'' 1]"
proof -
  let ?s = "example_state [example_product 1 ''Shirt'' 2, example_product 2 ''hat'' 1]"
  have t: "trim (toLowerCase '' sH '') = ''sh''"
    by code_simp
  have v: "filteredProducts (handleSearch example_platform '' sH '' ?s) = [example_product 1 ''Shirt'' 2]"
    by code_simp
  have e: "trim (toLowerCase ''  '') = []"
    by code_simp
  have k: "currentSort ?s \<notin> {''price-asc'', ''price-desc'', ''name-asc'', ''name-desc''}"
    by (simp add: example_state_def)
  from handleSearch_view [of example_platform "''  ''" ?s] e k
  have w: "filteredProducts (handleSearch example_platform ''  '' ?s) = allProducts ?s" by blast
  have l: "length (filteredProducts (handleSearch example_platform '' sH '' ?s)) \<le> 2"
    using handleSearch_view [of example_platform "'' sH ''" ?s] by (simp add: example_state_def)
  from t v l e k w show ?thesis by (simp add: example_state_def)
qed

text \<open>The sentence of the specification fails when a sort is active: an empty search then leaves the
  catalog sorted by price, not in its original order.\<close>

theorem handleSearch_order_counterexample:
  "trim (toLowerCase []) = []
   \<and> filteredProducts (handleSearch example_platform []
        (sortOptions_change example_platform ''price-asc''
           (example_state [example_product 1 ''Shirt'' 2, example_product 2 ''hat'' 1])))
      = [example_product 2 ''hat'' 1, example_product 1 ''Shirt'' 2]
   \<and> filteredProducts (handleSearch example_platform []
        (sortOptions_change example_platform ''price-asc''
           (example_state [example_product 1 ''Shirt'' 2, example_product 2 ''hat'' 1])))
      \<noteq> allProducts (sortOptions_change example_platform ''price-asc''
           (example_state [example_product 1 ''Shirt'' 2, example_product 2 ''hat'' 1]))"
  by (simp add: handleSearch_filtered sortOptions_change_def handleSort_def renderProducts_frame
      applySorting_frame trim_def trimStart_def trimEnd_def toLowerCase_def
      applySorting_list_def array_sort_def example_state_def example_product_def)

section \<open>Query engine: the price sorts\<close>

lemma insert_by_price_asc: "insert_by (\<lambda>a b. price a - price b) x ys = insort_key price x ys"
  by (induction ys) simp_all

lemma insert_by_price_desc:
  "insert_by (\<lambda>a b. price b - price a) x ys = insort_key (\<lambda>p. - price p) x ys"
  by (induction ys) simp_all

lemma array_sort_price_asc: "array_sort (\<lambda>a b. price a - price b) xs = sort_key price xs"
  unfolding array_sort_def by (induction xs) (simp_all add: insert_by_price_asc)

lemma array_sort_price_desc:
  "array_sort (\<lambda>a b. price b - price a) xs = sort_key (\<lambda>p. - price p) xs"
  unfolding array_sort_def by (induction xs) (simp_all add: insert_by_price_desc)

lemma sorted_unique_by_key:
  assumes "mset xs = mset ys" "distinct (map f xs)" "sorted (map f xs)" "sorted (map f ys)"
  shows "xs = ys"
proof -
  have s: "set xs = set ys" using assms(1) by (rule mset_eq_setD)
  have "mset (map f xs) = mset (map f ys)" using assms(1) by (metis mset_map)
  then have dy: "distinct (map f ys)" using assms(2) by (metis distinct_count_atmost_1 set_mset_mset)
  have "set (map f xs) = set (map f ys)" using s by simp
  then have e: "map f xs = map f ys"
    using assms(2,3,4) dy by (intro sorted_distinct_set_unique) simp_all
  have "inj_on f (set xs)" using assms(2) by (simp add: distinct_map)
  then have "inj_on f (set xs \<union> set ys)" using s by simp
  then show ?thesis using e by (simp add: inj_on_map_eq_map)
qed

lemma sorted_rev_neg:
  "sorted (map (\<lambda>p. - f p) xs) \<Longrightarrow> sorted (map (f :: 'a \<Rightarrow> rat) (rev xs))"
  by (induction xs) (auto simp: sorted_append)

text \<open>
  C8. For every view whose products have pairwise distinct prices, sorting it with
  \<open>price-asc\<close> and sorting it with \<open>price-desc\<close> give sequences that are the reverse
  of each other; so does sorting with \<open>price-desc\<close> after \<open>price-asc\<close>.
\<close>

theorem price_sorts_reversed:
  assumes "distinct (map price xs)"
  shows "applySorting_list pf ''price-asc'' xs = rev (applySorting_list pf ''price-desc'' xs)
       \<and> applySorting_list pf ''price-desc'' (applySorting_list pf ''price-asc'' xs)
           = rev (applySorting_list pf ''price-asc'' xs)"
proof -
  have asc: "applySorting_list pf ''price-asc'' ys = sort_key price ys" for ys
    by (simp add: applySorting_list_def array_sort_price_asc)
  have desc: "applySorting_list pf ''price-desc'' ys = sort_key (\<lambda>p. - price p) ys" for ys
    by (simp add: applySorting_list_def array_sort_price_desc)
  have key: "sort_key price ys = rev (sort_key (\<lambda>p. - price p) zs)"
    if "mset ys = mset zs" "distinct (map price ys)" for ys zs
  proof (rule sorted_unique_by_key [where f = price])
    show "mset (sort_key price ys) = mset (rev (sort_key (\<lambda>p. - price p) zs))"
      using that(1) by simp
    have "mset (map price (sort_key price ys)) = mset (map price ys)" by simp
    then show "distinct (map price (sort_key price ys))"
      using that(2) by (metis distinct_count_atmost_1 set_mset_mset)
    show "sorted (map price (sort_key price ys))" by simp
    show "sorted (map price (rev (sort_key (\<lambda>p. - price p) zs)))"
      by (rule sorted_rev_neg) simp
  qed
  have 1: "sort_key price xs = rev (sort_key (\<lambda>p. - price p) xs)"
    using assms by (intro key) simp_all
  have "sort_key price xs = rev (sort_key (\<lambda>p. - price p) (sort_key price xs))"
    using assms by (intro key) simp_all
  then have 2: "sort_key (\<lambda>p. - price p) (sort_key price xs) = rev (sort_key price xs)"
    by (metis rev_rev_ident)
  show ?thesis unfolding asc desc using 1 2 by simp
qed

theorem price_sorts_reversed_witness:
  "distinct (map price [example_product 1 ''a'' 3, example_product 2 ''b'' 1, example_product 3 ''c'' 2])
   \<and> applySorting_list example_platform ''price-asc''
        [example_product 1 ''a'' 3, example_product 2 ''b'' 1, example_product 3 ''c'' 2]
      = [example_product 2 ''b'' 1, example_product 3 ''c'' 2, example_product 1 ''a'' 3]
   \<and> applySorting_list example_platform ''price-desc''
        [example_product 1 ''a'' 3, example_product 2 ''b'' 1, example_product 3 ''c'' 2]
      = [example_product 1 ''a'' 3, example_product 3 ''c'' 2, example_product 2 ''b'' 1]"
proof -
  let ?xs = "[example_product 1 ''a'' 3, example_product 2 ''b'' 1, example_product 3 ''c'' 2]"
  have h: "distinct (map price ?xs)" by (simp add: example_product_def)
  have d: "applySorting_list example_platform ''price-desc'' ?xs
      = [example_product 1 ''a'' 3, example_product 3 ''c'' 2, example_product 2 ''b'' 1]"
    by (simp add: applySorting_list_def array_sort_def example_product_def)
  from price_sorts_reversed [OF h, of example_platform] d h show ?thesis by simp
qed

section \<open>Page reset\<close>

text \<open>
  C3 (as amended). Every search, every change of the page size and every change of the
  sort selector to a non-empty option value leave the current page at 1, whatever it was
  before. A change of the sort selector to the empty option value (no sort) only stores
  the empty key: \<open>handleSort\<close> does nothing then, and the current page stays as it
  was.
\<close>

theorem page_reset:
  "currentPage (handleSearch pf t s) = 1
   \<and> currentPage (itemsPerPage_change pf n s) = 1
   \<and> (v \<noteq> [] \<longrightarrow> currentPage (sortOptions_change pf v s) = 1
                  \<and> currentSort (sortOptions_change pf v s) = v)
   \<and> sortOptions_change pf [] s = s\<lparr>currentSort := []\<rparr>"
  by (simp add: handleSearch_def itemsPerPage_change_def sortOptions_change_def handleSort_def
      Let_def renderProducts_frame applySorting_frame)

theorem page_reset_witness:
  "''price-asc'' \<noteq> []
   \<and> currentPage (sortOptions_change example_platform ''price-asc''
        ((example_state [example_product 1 ''a'' 3, example_product 2 ''b'' 1, example_product 3 ''c'' 2])
           \<lparr>itemsPerPage := 1, currentPage := 3\<rparr>)) = 1"
  using page_reset [of example_platform "[]" "(example_state [example_product 1 ''a'' 3, example_product 2 ''b'' 1, example_product 3 ''c'' 2])
           \<lparr>itemsPerPage := 1, currentPage := 3\<rparr>" 1 "''price-asc''"]
  by simp

text \<open>The sentence of the specification fails for the empty sort key: after sorting by price and
  going to page 3, selecting no sort leaves the page at 3.\<close>

theorem page_reset_counterexample:
  "currentPage (sortOptions_change example_platform []
     (changePage example_platform 3
        (sortOptions_change example_platform ''price-asc''
           ((example_state [example_product 1 ''a'' 3, example_product 2 ''b'' 1,
               example_product 3 ''c'' 2])\<lparr>itemsPerPage := 1\<rparr>)))) = 3"
  by (simp add: sortOptions_change_def handleSort_def changePage_def Let_def renderProducts_frame
      applySorting_frame applySorting_def mset_eq_length [OF mset_applySorting_list]
      totalPages_div example_state_def)

section \<open>Page change\<close>

text \<open>
  C4. For a positive page size, a request for a page below 1 or above the number of
  pages is rejected: \<open>changePage\<close> returns the state as it was, with the current page,
  the view and everything displayed unchanged (nothing is clamped, nothing is rendered
  or scrolled).
\<close>

theorem changePage_rejects_outside:
  "0 < itemsPerPage s \<Longrightarrow>
   page < 1 \<or> totalPages (length (filteredProducts s)) (itemsPerPage s) < page \<Longrightarrow>
   changePage pf page s = s"
  by (auto simp: changePage_def Let_def)

theorem changePage_rejects_outside_witness:
  "0 < itemsPerPage (example_state [example_product 1 ''a'' 3, example_product 2 ''b'' 1])
   \<and> totalPages (length (filteredProducts (example_state [example_product 1 ''a'' 3, example_product 2 ''b'' 1])))
        (itemsPerPage (example_state [example_product 1 ''a'' 3, example_product 2 ''b'' 1])) < 2
   \<and> changePage example_platform 2 (example_state [example_product 1 ''a'' 3, example_product 2 ''b'' 1])
     = example_state [example_product 1 ''a'' 3, example_product 2 ''b'' 1]"
proof -
  let ?s = "example_state [example_product 1 ''a'' 3, example_product 2 ''b'' 1]"
  have h1: "0 < itemsPerPage ?s" by (simp add: example_state_def)
  have h2: "totalPages (length (filteredProducts ?s)) (itemsPerPage ?s) < 2"
    by (simp add: example_state_def totalPages_div)
  then have h3: "2 < 1 \<or> totalPages (length (filteredProducts ?s)) (itemsPerPage ?s) < 2" by simp
  from changePage_rejects_outside [OF h1 h3, of example_platform] h1 h2 show ?thesis by simp
qed

section \<open>Page window\<close>

lemma link_numbers_append: "link_numbers (xs @ ys) = link_numbers xs @ link_numbers ys"
  by (induction xs rule: link_numbers.induct) simp_all

lemma link_numbers_map: "link_numbers (map (\<lambda>i. PageLink i (f i)) xs) = xs"
  by (induction xs) simp_all

lemma link_numbers_windowLinks: "link_numbers (windowLinks cur sp ep) = [sp..ep]"
  unfolding windowLinks_def by (rule link_numbers_map)

lemma strict_upto: "sorted_wrt (<) [i..j::int]"
  by (simp add: strict_sorted_iff)

lemma pageWindow_bounds:
  assumes "1 \<le> cur" "cur \<le> tp"
  shows "case pageWindow cur tp of (sp, ep) \<Rightarrow>
           sp \<le> cur \<and> cur \<le> ep \<and> 1 \<le> sp \<and> ep \<le> tp \<and> ep - sp \<le> 4"
  using assms unfolding pageWindow_def Let_def by auto

lemma link_numbers_first: "link_numbers (firstLinks sp) = (if sp > 1 then [1] else [])"
  by (simp add: firstLinks_def)

lemma link_numbers_last: "link_numbers (lastLinks ep tp) = (if ep < tp then [tp] else [])"
  by (simp add: lastLinks_def)

lemma link_numbers_paginationHTML:
  "pageWindow cur tp = (sp, ep) \<Longrightarrow>
   link_numbers (paginationHTML cur tp) =
     (if sp > 1 then [1] else []) @ [sp..ep] @ (if ep < tp then [tp] else [])"
  by (simp add: paginationHTML_def link_numbers_append link_numbers_first link_numbers_last
      link_numbers_windowLinks)

lemma strict_all_links:
  assumes "1 \<le> sp" "ep \<le> tp" "sp \<le> ep"
  shows "sorted_wrt (<) ((if sp > 1 then [1] else []) @ [sp..ep] @ (if ep < tp then [tp] else []))"
  using assms by (auto simp: sorted_wrt_append strict_upto)

text \<open>
  C7. For a current page in \<open>[1, totalPages]\<close> with more than one page, the pagination
  control is the previous button, the optional first link and ellipsis, the window of
  numbered links, the optional ellipsis and last link, and the next button. The window
  holds the current page, has at most 5 numbers, lies within \<open>[1, totalPages]\<close> and is
  strictly increasing; at most one first and one last link are added, and all numbered
  links together are strictly increasing.
\<close>

theorem renderPagination_window:
  assumes "0 < itemsPerPage s"
    and "tp = totalPages (length (filteredProducts s)) (itemsPerPage s)"
    and "1 < tp" and "1 \<le> currentPage s" and "currentPage s \<le> tp"
  shows "case pageWindow (currentPage s) tp of (sp, ep) \<Rightarrow>
     pagination (renderPagination s) =
        [PrevButton (currentPage s = 1) (currentPage s - 1)] @ firstLinks sp
        @ windowLinks (currentPage s) sp ep @ lastLinks ep tp
        @ [NextButton (currentPage s = tp) (currentPage s + 1)]
     \<and> link_numbers (windowLinks (currentPage s) sp ep) = [sp..ep]
     \<and> currentPage s \<in> set [sp..ep]
     \<and> length [sp..ep] \<le> 5
     \<and> (\<forall>i \<in> set [sp..ep]. 1 \<le> i \<and> i \<le> tp)
     \<and> sorted_wrt (<) [sp..ep]
     \<and> length (link_numbers (firstLinks sp)) \<le> 1
     \<and> length (link_numbers (lastLinks ep tp)) \<le> 1
     \<and> sorted_wrt (<) (link_numbers (pagination (renderPagination s)))"
proof -
  obtain sp ep where w: "pageWindow (currentPage s) tp = (sp, ep)" by (cases "pageWindow (currentPage s) tp")
  from pageWindow_bounds [OF assms(4,5)] w
  have b: "sp \<le> currentPage s" "currentPage s \<le> ep" "1 \<le> sp" "ep \<le> tp" "ep - sp \<le> 4" by auto
  have r: "pagination (renderPagination s) = paginationHTML (currentPage s) tp"
    using assms(2,3) by (simp add: renderPagination_def Let_def)
  have 1: "pagination (renderPagination s) =
        [PrevButton (currentPage s = 1) (currentPage s - 1)] @ firstLinks sp
        @ windowLinks (currentPage s) sp ep @ lastLinks ep tp
        @ [NextButton (currentPage s = tp) (currentPage s + 1)]"
    unfolding r by (simp add: paginationHTML_def w)
  have 2: "sorted_wrt (<) (link_numbers (pagination (renderPagination s)))"
    unfolding r link_numbers_paginationHTML [OF w] using b by (intro strict_all_links) simp_all
  have 3: "length [sp..ep] \<le> 5" using b by simp
  have 4: "\<forall>i \<in> set [sp..ep]. 1 \<le> i \<and> i \<le> tp" using b by auto
  have 5: "currentPage s \<in> set [sp..ep]" using b by simp
  show ?thesis
    unfolding w using 1 2 3 4 5
    by (simp add: link_numbers_windowLinks strict_upto link_numbers_first link_numbers_last)
qed

theorem renderPagination_window_witness:
  "0 < itemsPerPage ((example_state (replicate 95 (example_product 1 ''a'' 1)))\<lparr>currentPage := 5\<rparr>)
   \<and> totalPages (length (filteredProducts
        ((example_state (replicate 95 (example_product 1 ''a'' 1)))\<lparr>currentPage := 5\<rparr>))) 10 = 10
   \<and> pageWindow 5 10 = (3, 7)
   \<and> link_numbers (pagination (renderPagination
        ((example_state (replicate 95 (example_product 1 ''a'' 1)))\<lparr>currentPage := 5\<rparr>)))
      = [1, 3, 4, 5, 6, 7, 10]
   \<and> sorted_wrt (<) (link_numbers (pagination (renderPagination
        ((example_state (replicate 95 (example_product 1 ''a'' 1)))\<lparr>currentPage := 5\<rparr>))))"
proof -
  let ?s = "(example_state (replicate 95 (example_product 1 ''a'' 1)))\<lparr>currentPage := 5\<rparr>"
  have h1: "0 < itemsPerPage ?s" by (simp add: example_state_def)
  have h2: "10 = totalPages (length (filteredProducts ?s)) (itemsPerPage ?s)"
    by (simp add: example_state_def totalPages_div)
  have h3: "(1::int) < 10" by simp
  have h4: "1 \<le> currentPage ?s" by (simp add: example_state_def)
  have h5: "currentPage ?s \<le> 10" by (simp add: example_state_def)
  have w: "pageWindow 5 10 = (3, 7)" by (simp add: pageWindow_def)
  have c: "currentPage ?s = 5" by simp
  have u: "[3..7] = [3, 4, 5, 6, 7::int]" by (simp add: upto_rec1)
  note th = renderPagination_window [OF h1 h2 h3 h4 h5, unfolded c w prod.case]
  from th have p: "pagination (renderPagination ?s) =
      [PrevButton ((5::int) = 1) (5 - 1)] @ firstLinks 3 @ windowLinks 5 3 7 @ lastLinks 7 10
      @ [NextButton ((5::int) = 10) (5 + 1)]" by (elim conjE)
  have n: "link_numbers (pagination (renderPagination ?s)) = [1, 3, 4, 5, 6, 7, 10]"
    unfolding p
    by (simp add: link_numbers_append link_numbers_first link_numbers_last
        link_numbers_windowLinks u)
  from th have o: "sorted_wrt (<) (link_numbers (pagination (renderPagination ?s)))"
    by (elim conjE)
  have l: "totalPages (length (filteredProducts ?s)) 10 = 10"
    by (simp add: example_state_def totalPages_div)
  from h1 l w n o show ?thesis by (intro conjI)
qed

section \<open>Image resolver: load failures\<close>

lemma error_events_Suc: "error_events (Suc n) img = error_event (error_events n img)"
  by (simp add: error_events_def)

lemma error_events_0: "error_events 0 img = img"
  by (simp add: error_events_def)

lemma length_strategies_fallback: "length (strategies_fallback u) = 4"
  by (simp add: strategies_fallback_def)

lemma attempt_index_step: "attempt_index img \<le> attempt_index (error_event img)"
  by (auto simp: error_event_def handleImageError_def attempt_index_def closest_wrapper_def
      Let_def split: option.splits)

lemma attempt_index_mono:
  "m \<le> n \<Longrightarrow> attempt_index (error_events m img) \<le> attempt_index (error_events n img)"
  by (rule lift_Suc_mono_le [where f = "\<lambda>k. attempt_index (error_events k img)"])
     (simp_all add: error_events_Suc attempt_index_step)

lemma failed_event_noop: "''image-error'' \<in> set (classList img) \<Longrightarrow> error_event img = img"
  by (simp add: error_event_def handleImageError_def split: option.splits)

lemma failed_events_noop: "''image-error'' \<in> set (classList img) \<Longrightarrow> error_events n img = img"
  by (induction n) (simp_all add: error_events_0 error_events_Suc failed_event_noop)

lemma no_handler_noop: "onerror img = None \<Longrightarrow> error_events n img = img"
  by (induction n) (simp_all add: error_events_0 error_events_Suc error_event_def)

lemma exhausted_event:
  assumes "''image-error'' \<notin> set (classList img)" "closest_wrapper img = Some w"
    "onerror img = Some u" "\<not> attempt_index img + 1 < length (strategies_fallback u)"
  shows "error_event img = img\<lparr>classList := classList img @ [''image-error''],
                               wrapper := Some (w\<lparr>innerHTML_w := ImagePlaceholder\<rparr>)\<rparr>"
proof -
  from assms(2) have w: "wrapper img = Some w"
    by (auto simp: closest_wrapper_def split: option.splits if_splits)
  with assms(4) have "\<not> (case data_attempt w of None \<Rightarrow> 0 | Some a \<Rightarrow> a) + 1
                       < length (strategies_fallback u)"
    by (simp add: attempt_index_def)
  with assms(1,2,3) show ?thesis
    by (simp add: error_event_def handleImageError_def Let_def)
qed

lemma failure_steps:
  "attempt_index img \<le> attempt_index (error_event img)
   \<and> (m \<le> n \<longrightarrow> attempt_index (error_events m img) \<le> attempt_index (error_events n img))
   \<and> (''image-error'' \<in> set (classList img) \<longrightarrow> error_events n img = img)
   \<and> (''image-error'' \<notin> set (classList img) \<and> closest_wrapper img = Some w
        \<and> onerror img = Some u
        \<and> \<not> attempt_index img + 1 < length (strategies_fallback u) \<longrightarrow>
          ''image-error'' \<in> set (classList (error_event img))
          \<and> wrapper (error_event img) = Some (w\<lparr>innerHTML_w := ImagePlaceholder\<rparr>)
          \<and> attempt_index (error_event img) = attempt_index img
          \<and> error_events (Suc n) img = error_event img)"
proof -
  have 4: "''image-error'' \<in> set (classList (error_event img))
          \<and> wrapper (error_event img) = Some (w\<lparr>innerHTML_w := ImagePlaceholder\<rparr>)
          \<and> attempt_index (error_event img) = attempt_index img
          \<and> error_events (Suc n) img = error_event img"
    if a: "''image-error'' \<notin> set (classList img)" "closest_wrapper img = Some w"
      "onerror img = Some u" "\<not> attempt_index img + 1 < length (strategies_fallback u)"
  proof -
    note e = exhausted_event [OF a]
    have c: "''image-error'' \<in> set (classList (error_event img))" unfolding e by simp
    from a(2) have w: "wrapper img = Some w"
      by (auto simp: closest_wrapper_def split: option.splits if_splits)
    have "error_events (Suc n) img = error_events n (error_event img)"
      by (simp add: error_events_def funpow_swap1)
    also have "\<dots> = error_event img" by (rule failed_events_noop [OF c])
    finally have "error_events (Suc n) img = error_event img" .
    with c w show ?thesis unfolding e by (simp add: attempt_index_def)
  qed
  show ?thesis
    using attempt_index_step [of img] attempt_index_mono [of m n img]
      failed_events_noop [of img n] 4
    by blast
qed

lemma with_onerror_Some:
  "with_onerror (inline_onerror c) f = Some x \<Longrightarrow>
   (\<exists>h. x = f h \<and> (h = None \<or> h = Some c))"
  by (auto simp: with_onerror_def inline_onerror_def split: if_splits)

lemma productImage_Some:
  assumes "productImage p i x = Some img"
  shows "img = \<lparr>src = attribute_value (getImageWithStrategies (cleanImg x)),
                classList = [''product-image''], style_display = [], onerror = onerror img,
                wrapper = Some \<lparr>data_image_index = i, data_product_id = id_p p,
                                 data_attempt = Some 0, innerHTML_w = ImageAndOverlay\<rparr>\<rparr>"
    and "onerror img = None \<or> onerror img = Some (cleanImg x)"
  using with_onerror_Some [OF assms [unfolded productImage_def Let_def]] by auto

lemma rendered_retries:
  "k \<le> 3 \<Longrightarrow>
   error_events k
     \<lparr>src = s, classList = [''product-image''], style_display = [], onerror = Some u,
      wrapper = Some \<lparr>data_image_index = i, data_product_id = d,
                       data_attempt = Some 0, innerHTML_w = ImageAndOverlay\<rparr>\<rparr> =
     \<lparr>src = (if k = 0 then s else strategies_fallback u ! k),
      classList = [''product-image''], style_display = [], onerror = Some u,
      wrapper = Some \<lparr>data_image_index = i, data_product_id = d,
                       data_attempt = Some k, innerHTML_w = ImageAndOverlay\<rparr>\<rparr>"
proof (induction k)
  case 0
  show ?case by (simp add: error_events_0)
next
  case (Suc k)
  then have "k \<le> 3" and lt: "Suc k < 4" by simp_all
  with Suc.IH show ?case
    unfolding error_events_Suc
    by (simp add: error_event_def handleImageError_def closest_wrapper_def Let_def
        length_strategies_fallback)
qed

lemma rendered_exhausted:
  "error_events 4
     \<lparr>src = s, classList = [''product-image''], style_display = [], onerror = Some u,
      wrapper = Some \<lparr>data_image_index = i, data_product_id = d,
                       data_attempt = Some 0, innerHTML_w = ImageAndOverlay\<rparr>\<rparr> =
     \<lparr>src = strategies_fallback u ! 3,
      classList = [''product-image'', ''image-error''], style_display = [],
      onerror = Some u,
      wrapper = Some \<lparr>data_image_index = i, data_product_id = d,
                       data_attempt = Some 3, innerHTML_w = ImagePlaceholder\<rparr>\<rparr>"
proof -
  let ?X = "\<lparr>src = s, classList = [''product-image''], style_display = [], onerror = Some u,
      wrapper = Some \<lparr>data_image_index = i, data_product_id = d,
                       data_attempt = Some 0, innerHTML_w = ImageAndOverlay\<rparr>\<rparr>"
  have e3: "error_events 3 ?X =
     \<lparr>src = strategies_fallback u ! 3,
      classList = [''product-image''], style_display = [], onerror = Some u,
      wrapper = Some \<lparr>data_image_index = i, data_product_id = d,
                       data_attempt = Some 3, innerHTML_w = ImageAndOverlay\<rparr>\<rparr>"
    using rendered_retries [of 3 s u i d] by simp
  have "error_events 4 ?X = error_event (error_events 3 ?X)"
    using error_events_Suc [of 3 ?X] by (simp add: eval_nat_numeral)
  also have "\<dots> = \<lparr>src = strategies_fallback u ! 3,
      classList = [''product-image'', ''image-error''], style_display = [],
      onerror = Some u,
      wrapper = Some \<lparr>data_image_index = i, data_product_id = d,
                       data_attempt = Some 3, innerHTML_w = ImagePlaceholder\<rparr>\<rparr>"
    unfolding e3
    by (simp add: error_event_def handleImageError_def closest_wrapper_def Let_def
        length_strategies_fallback)
  finally show ?thesis .
qed

lemma after_exhaustion:
  "''image-error'' \<in> set (classList (error_events 4 img)) \<Longrightarrow> 4 \<le> k \<Longrightarrow>
   error_events k img = error_events 4 img"
proof -
  assume f: "''image-error'' \<in> set (classList (error_events 4 img))" and "4 \<le> k"
  then obtain j where k: "k = j + 4" by (metis le_add_diff_inverse2)
  have "error_events (j + 4) img = error_events j (error_events 4 img)"
    by (simp add: error_events_def funpow_add)
  also have "\<dots> = error_events 4 img" by (rule failed_events_noop [OF f])
  finally show ?thesis unfolding k .
qed

section \<open>Image resolver: rendered images\<close>

lemma those_mem: "those xs = Some ys \<Longrightarrow> y \<in> set ys \<Longrightarrow> Some y \<in> set xs"
  by (induction xs arbitrary: ys) (auto split: option.splits)

lemma createProductRow_images:
  assumes "createProductRow pf p = Some row" "img \<in> set (product_images row)"
  shows "\<exists>i x. productImage p i x = Some img \<and> x \<in> set (images p) \<and> validImage pf x"
proof -
  let ?v = "filter (validImage pf) (images p)"
  from assms(1) have "those (map (\<lambda>(index, img). productImage p index img) (enumerate 0 ?v))
      = Some (product_images row)"
    by (auto simp: createProductRow_def Let_def split: option.splits if_splits)
  from those_mem [OF this assms(2)]
  obtain a where a: "a < length ?v" and i: "productImage p a (?v ! a) = Some img"
    by (auto simp: in_set_enumerate_eq)
  from a have "?v ! a \<in> set ?v" by (rule nth_mem)
  then have "?v ! a \<in> set (images p)" and "validImage pf (?v ! a)" by simp_all
  with i show ?thesis by blast
qed

lemma first_failure_selects_proxyA:
  assumes "createProductRow pf p = Some row" "img \<in> set (product_images row)"
  shows "attempt_index img = 0
     \<and> (onerror img = None \<longrightarrow> error_event img = img)
     \<and> (onerror img = Some u \<longrightarrow>
           src (error_event img) = proxyA u
           \<and> src (error_event img) = strategies_fallback u ! 1
           \<and> attempt_index (error_event img) = 1)"
proof -
  from createProductRow_images [OF assms] obtain i x where r: "productImage p i x = Some img"
    by blast
  note f = productImage_Some(1) [OF r]
  have 0: "attempt_index img = 0" by (subst f) (simp add: attempt_index_def)
  have 1: "onerror img = None \<longrightarrow> error_event img = img" by (simp add: error_event_def)
  have 2: "src (error_event img) = proxyA u \<and> src (error_event img) = strategies_fallback u ! 1
           \<and> attempt_index (error_event img) = 1" if h: "onerror img = Some u"
  proof -
    have "error_events 1 img = error_event img" by (simp add: error_events_def)
    moreover from f h rendered_retries [of 1 "src img" u i "id_p p"]
    have "error_events 1 img =
      \<lparr>src = strategies_fallback u ! 1,
       classList = [''product-image''], style_display = [], onerror = Some u,
       wrapper = Some \<lparr>data_image_index = i, data_product_id = id_p p,
                       data_attempt = Some 1, innerHTML_w = ImageAndOverlay\<rparr>\<rparr>"
      by simp
    ultimately show ?thesis by (simp add: attempt_index_def strategies_fallback_def)
  qed
  from 0 1 2 show ?thesis by blast
qed

lemma url_hash_http_a: "url_hash ''http://a'' = - 133916529"
  by (simp add: url_hash_def hash_step_def shl5_def charCodeAt0_def)


lemma url_hash_http_a_quote: "url_hash (''http://a'' @ [CHR 0x22]) = 143554931"
  by (simp add: url_hash_def hash_step_def shl5_def charCodeAt0_def)

lemma cleanImg_bracket_http_a_quote:
  "cleanImg ([CHR 0x5B, CHR 0x22] @ ''http://a'' @ [CHR 0x22]) = ''http://a'' @ [CHR 0x22]"
  by (simp add: cleanImg_def trim_def trimStart_def trimEnd_def isWhiteSpace_def
      startsWith_def endsWith_def)











lemma cleanImg_http_a: "cleanImg ''http://a'' = ''http://a''"
  by (simp add: cleanImg_def trim_def trimStart_def trimEnd_def isWhiteSpace_def
      startsWith_def endsWith_def)

lemma productImage_http_a:
  "productImage (example_product 1 ''a'' 1) 0 ''http://a''
     = Some \<lparr>src = ''http://a'', classList = [''product-image''], style_display = [],
             onerror = Some ''http://a'',
             wrapper = Some \<lparr>data_image_index = 0, data_product_id = 1,
                              data_attempt = Some 0, innerHTML_w = ImageAndOverlay\<rparr>\<rparr>"
proof -
  have g: "getImageWithStrategies ''http://a'' = ''http://a''"
    unfolding getImageWithStrategies_def Let_def url_hash_http_a
    by (simp add: strategies_initial_def)
  have h: "inline_onerror ''http://a'' = Calls ''http://a''"
    by (simp add: inline_onerror_def intact_char_def)
  show ?thesis
    unfolding productImage_def Let_def cleanImg_http_a g h
    by (simp add: with_onerror_def attribute_value_def example_product_def)
qed


section \<open>Image resolver: the failure chain\<close>

text \<open>
  C5. The attempt index of an image never decreases over load failures. An element
  marked \<open>image-error\<close> is left as it is by every later failure, and so is an element
  without a handler. A failure of an element in a wrapper whose candidate list is
  exhausted marks it \<open>image-error\<close> and replaces the wrapper's content by the
  placeholder, and every later failure changes nothing. For a product image as the
  script renders it with its handler: the first three failures move to the next
  candidate without marking it, and from the fourth failure on it is marked, replaced by
  the placeholder and unchanged by further failures.
\<close>

theorem image_failure_chain:
  "attempt_index img \<le> attempt_index (error_event img)
   \<and> (m \<le> n \<longrightarrow> attempt_index (error_events m img) \<le> attempt_index (error_events n img))
   \<and> (''image-error'' \<in> set (classList img) \<longrightarrow> error_events n img = img)
   \<and> (onerror img = None \<longrightarrow> error_events n img = img)
   \<and> (''image-error'' \<notin> set (classList img) \<and> closest_wrapper img = Some w
        \<and> onerror img = Some u
        \<and> \<not> attempt_index img + 1 < length (strategies_fallback u) \<longrightarrow>
          ''image-error'' \<in> set (classList (error_event img))
          \<and> wrapper (error_event img) = Some (w\<lparr>innerHTML_w := ImagePlaceholder\<rparr>)
          \<and> attempt_index (error_event img) = attempt_index img
          \<and> error_events (Suc n) img = error_event img)
   \<and> (productImage p i x = Some pimg \<and> onerror pimg \<noteq> None \<and> k < 4 \<longrightarrow>
          ''image-error'' \<notin> set (classList (error_events k pimg))
          \<and> attempt_index (error_events k pimg) = k)
   \<and> (productImage p i x = Some pimg \<and> onerror pimg \<noteq> None \<and> 4 \<le> k \<longrightarrow>
          ''image-error'' \<in> set (classList (error_events k pimg))
          \<and> map_option innerHTML_w (wrapper (error_events k pimg)) = Some ImagePlaceholder
          \<and> error_events (Suc k) pimg = error_events k pimg)"
proof -
  have 5: "''image-error'' \<notin> set (classList (error_events k pimg))
          \<and> attempt_index (error_events k pimg) = k"
    if a: "productImage p i x = Some pimg" "onerror pimg \<noteq> None" "k < 4"
  proof -
    from productImage_Some [OF a(1)] a(2) obtain s where
      pimg: "pimg = \<lparr>src = s, classList = [''product-image''], style_display = [],
                onerror = Some (cleanImg x),
                wrapper = Some \<lparr>data_image_index = i, data_product_id = id_p p,
                                 data_attempt = Some 0, innerHTML_w = ImageAndOverlay\<rparr>\<rparr>"
      by metis
    from a(3) have "k \<le> 3" by simp
    from rendered_retries [OF this] show ?thesis
      unfolding pimg by (simp add: attempt_index_def)
  qed
  have 6: "''image-error'' \<in> set (classList (error_events k pimg))
          \<and> map_option innerHTML_w (wrapper (error_events k pimg)) = Some ImagePlaceholder
          \<and> error_events (Suc k) pimg = error_events k pimg"
    if a: "productImage p i x = Some pimg" "onerror pimg \<noteq> None" "4 \<le> k"
  proof -
    from productImage_Some [OF a(1)] a(2) obtain s where
      pimg: "pimg = \<lparr>src = s, classList = [''product-image''], style_display = [],
                onerror = Some (cleanImg x),
                wrapper = Some \<lparr>data_image_index = i, data_product_id = id_p p,
                                 data_attempt = Some 0, innerHTML_w = ImageAndOverlay\<rparr>\<rparr>"
      by metis
    have f: "''image-error'' \<in> set (classList (error_events 4 pimg))"
      unfolding pimg by (simp add: rendered_exhausted)
    from a(3) have "4 \<le> Suc k" by simp
    from after_exhaustion [OF f a(3)] after_exhaustion [OF f this]
    show ?thesis unfolding pimg by (simp add: rendered_exhausted)
  qed
  from failure_steps [of img m n w u] no_handler_noop [of img n] 5 6 show ?thesis by blast
qed

theorem image_failure_chain_witness:
  "(2::nat) \<le> 5
   \<and> attempt_index (error_events 2
        \<lparr>src = ''http://a'', classList = [''product-image''], style_display = [],
          onerror = Some ''http://a'',
          wrapper = Some \<lparr>data_image_index = 0, data_product_id = 1,
                           data_attempt = Some 0, innerHTML_w = ImageAndOverlay\<rparr>\<rparr>)
      \<le> attempt_index (error_events 5
        \<lparr>src = ''http://a'', classList = [''product-image''], style_display = [],
          onerror = Some ''http://a'',
          wrapper = Some \<lparr>data_image_index = 0, data_product_id = 1,
                           data_attempt = Some 0, innerHTML_w = ImageAndOverlay\<rparr>\<rparr>)
   \<and> productImage (example_product 1 ''a'' 1) 0 ''http://a''
      = Some \<lparr>src = ''http://a'', classList = [''product-image''], style_display = [],
          onerror = Some ''http://a'',
          wrapper = Some \<lparr>data_image_index = 0, data_product_id = 1,
                           data_attempt = Some 0, innerHTML_w = ImageAndOverlay\<rparr>\<rparr>
   \<and> (3::nat) < 4
   \<and> attempt_index (error_events 3
        \<lparr>src = ''http://a'', classList = [''product-image''], style_display = [],
          onerror = Some ''http://a'',
          wrapper = Some \<lparr>data_image_index = 0, data_product_id = 1,
                           data_attempt = Some 0, innerHTML_w = ImageAndOverlay\<rparr>\<rparr>) = 3
   \<and> (4::nat) \<le> 5
   \<and> ''image-error'' \<in> set (classList (error_events 5
        \<lparr>src = ''http://a'', classList = [''product-image''], style_display = [],
          onerror = Some ''http://a'',
          wrapper = Some \<lparr>data_image_index = 0, data_product_id = 1,
                           data_attempt = Some 0, innerHTML_w = ImageAndOverlay\<rparr>\<rparr>))
   \<and> error_events (Suc 5)
        \<lparr>src = ''http://a'', classList = [''product-image''], style_display = [],
          onerror = Some ''http://a'',
          wrapper = Some \<lparr>data_image_index = 0, data_product_id = 1,
                           data_attempt = Some 0, innerHTML_w = ImageAndOverlay\<rparr>\<rparr>
      = error_events 5
        \<lparr>src = ''http://a'', classList = [''product-image''], style_display = [],
          onerror = Some ''http://a'',
          wrapper = Some \<lparr>data_image_index = 0, data_product_id = 1,
                           data_attempt = Some 0, innerHTML_w = ImageAndOverlay\<rparr>\<rparr>
   \<and> ''image-error'' \<in> set [''product-image'', ''image-error'']
   \<and> error_events 2
        \<lparr>src = corsRelay ''http://a'', classList = [''product-image'', ''image-error''],
          style_display = [], onerror = Some ''http://a'',
          wrapper = Some \<lparr>data_image_index = 0, data_product_id = 1,
                           data_attempt = Some 3, innerHTML_w = ImagePlaceholder\<rparr>\<rparr>
      = \<lparr>src = corsRelay ''http://a'', classList = [''product-image'', ''image-error''],
          style_display = [], onerror = Some ''http://a'',
          wrapper = Some \<lparr>data_image_index = 0, data_product_id = 1,
                           data_attempt = Some 3, innerHTML_w = ImagePlaceholder\<rparr>\<rparr>
   \<and> error_events 2
        \<lparr>src = ''http://a'', classList = [''product-image''], style_display = [],
          onerror = None,
          wrapper = Some \<lparr>data_image_index = 0, data_product_id = 1,
                           data_attempt = Some 0, innerHTML_w = ImageAndOverlay\<rparr>\<rparr>
      = \<lparr>src = ''http://a'', classList = [''product-image''], style_display = [],
          onerror = None,
          wrapper = Some \<lparr>data_image_index = 0, data_product_id = 1,
                           data_attempt = Some 0, innerHTML_w = ImageAndOverlay\<rparr>\<rparr>
   \<and> wrapper (error_event
        \<lparr>src = corsRelay ''http://a'', classList = [''product-image''],
          style_display = [], onerror = Some ''http://a'',
          wrapper = Some \<lparr>data_image_index = 0, data_product_id = 1,
                           data_attempt = Some 3, innerHTML_w = ImageAndOverlay\<rparr>\<rparr>)
      = Some \<lparr>data_image_index = 0, data_product_id = 1, data_attempt = Some 3,
               innerHTML_w = ImagePlaceholder\<rparr>"
proof -
  let ?p = "example_product 1 ''a'' 1"
  let ?X = "\<lparr>src = ''http://a'', classList = [''product-image''], style_display = [],
          onerror = Some ''http://a'',
          wrapper = Some \<lparr>data_image_index = 0, data_product_id = 1,
                           data_attempt = Some (0::nat), innerHTML_w = ImageAndOverlay\<rparr>\<rparr>"
  let ?F = "\<lparr>src = corsRelay ''http://a'', classList = [''product-image'', ''image-error''],
          style_display = [], onerror = Some ''http://a'',
          wrapper = Some \<lparr>data_image_index = 0, data_product_id = 1,
                           data_attempt = Some (3::nat), innerHTML_w = ImagePlaceholder\<rparr>\<rparr>"
  let ?N = "\<lparr>src = ''http://a'', classList = [''product-image''], style_display = [],
          onerror = None,
          wrapper = Some \<lparr>data_image_index = 0, data_product_id = 1,
                           data_attempt = Some (0::nat), innerHTML_w = ImageAndOverlay\<rparr>\<rparr>"
  let ?w = "\<lparr>data_image_index = 0, data_product_id = 1, data_attempt = Some (3::nat),
              innerHTML_w = ImageAndOverlay\<rparr>"
  let ?R = "\<lparr>src = corsRelay ''http://a'', classList = [''product-image''],
          style_display = [], onerror = Some ''http://a'', wrapper = Some ?w\<rparr>"
  note r = productImage_http_a
  have h: "onerror ?X \<noteq> None" by simp
  note t1 = image_failure_chain [where img = ?X and m = 2 and n = 5 and k = 5 and p = ?p
      and i = 0 and x = "''http://a''" and pimg = ?X]
  note t2 = image_failure_chain [where img = ?X and m = 2 and n = 5 and k = 3 and p = ?p
      and i = 0 and x = "''http://a''" and pimg = ?X]
  note t3 = image_failure_chain [where img = ?F and n = 2]
  note t4 = image_failure_chain [where img = ?N and n = 2]
  note t5 = image_failure_chain [where img = ?R and w = ?w and u = "''http://a''"]
  from t1 t2 r h have c12: "(2::nat) \<le> 5
   \<and> attempt_index (error_events 2 ?X) \<le> attempt_index (error_events 5 ?X)
   \<and> (3::nat) < 4 \<and> attempt_index (error_events 3 ?X) = 3 \<and> (4::nat) \<le> 5
   \<and> ''image-error'' \<in> set (classList (error_events 5 ?X))
   \<and> error_events (Suc 5) ?X = error_events 5 ?X" by simp
  have b: "''image-error'' \<in> set [''product-image'', ''image-error'']" by simp
  from t3 have c3: "error_events 2 ?F = ?F" by simp
  from t4 have c4: "error_events 2 ?N = ?N" by simp
  have a2: "closest_wrapper ?R = Some ?w" by (simp add: closest_wrapper_def)
  have a3: "\<not> attempt_index ?R + 1 < length (strategies_fallback ''http://a'')"
    by (simp add: attempt_index_def length_strategies_fallback)
  from t5 a2 a3 have "wrapper (error_event ?R) = Some (?w\<lparr>innerHTML_w := ImagePlaceholder\<rparr>)"
    by simp
  then have c5: "wrapper (error_event ?R)
      = Some \<lparr>data_image_index = 0, data_product_id = 1, data_attempt = Some 3,
               innerHTML_w = ImagePlaceholder\<rparr>" by simp
  from c12 r b c3 c4 c5 show ?thesis by (intro conjI) (elim conjE, assumption)+
qed

section \<open>Image resolver: the first failure of a product image\<close>

text \<open>
  C10. Every product image of a row starts with attempt index 0, and the first load
  failure of one whose handler was compiled sets its source to entry 1 of the fallback
  list, proxy variant A of the original URL, whichever strategy the hash had selected
  (\<open>first_failure_selects_proxyA\<close>). The script pastes the URL into the handler
  without escaping it, although it escapes the same URL for \<open>data-original-url\<close>. For
  the image entry \<open>["http://a"\<close> the cleaned URL \<open>http://a"\<close> is kept by the filter and
  shown through proxy variant B; its quotation mark ends the \<open>onerror\<close> attribute, no
  handler is compiled, and the first load failure changes nothing: the source stays
  proxy variant B, which is not proxy variant A, and the attempt index stays 0.
\<close>

theorem first_failure_without_handler:
  "createProductRow example_platform
      ((example_product 1 ''a'' 1)\<lparr>images := [[CHR 0x5B, CHR 0x22] @ ''http://a'' @ [CHR 0x22]]\<rparr>)
     = Some \<lparr>row_product =
               (example_product 1 ''a'' 1)\<lparr>images := [[CHR 0x5B, CHR 0x22] @ ''http://a'' @ [CHR 0x22]]\<rparr>,
             category_image = None,
             product_images =
               [\<lparr>src = proxyB (''http://a'' @ [CHR 0x22]), classList = [''product-image''],
                  style_display = [], onerror = None,
                  wrapper = Some \<lparr>data_image_index = 0, data_product_id = 1,
                                   data_attempt = Some 0, innerHTML_w = ImageAndOverlay\<rparr>\<rparr>]\<rparr>
   \<and> error_event
        \<lparr>src = proxyB (''http://a'' @ [CHR 0x22]), classList = [''product-image''],
          style_display = [], onerror = None,
          wrapper = Some \<lparr>data_image_index = 0, data_product_id = 1,
                           data_attempt = Some 0, innerHTML_w = ImageAndOverlay\<rparr>\<rparr>
     = \<lparr>src = proxyB (''http://a'' @ [CHR 0x22]), classList = [''product-image''],
          style_display = [], onerror = None,
          wrapper = Some \<lparr>data_image_index = 0, data_product_id = 1,
                           data_attempt = Some 0, innerHTML_w = ImageAndOverlay\<rparr>\<rparr>
   \<and> proxyB (''http://a'' @ [CHR 0x22]) \<noteq> proxyA (''http://a'' @ [CHR 0x22])"
proof -
  let ?u = "''http://a'' @ [CHR 0x22]"
  let ?x = "[CHR 0x5B, CHR 0x22] @ ''http://a'' @ [CHR 0x22]"
  have v: "validImage example_platform ?x"
    unfolding validImage_def cleanImg_bracket_http_a_quote
    by (simp add: example_platform_def startsWith_def)
  have g: "getImageWithStrategies ?u = proxyB ?u"
    unfolding getImageWithStrategies_def Let_def url_hash_http_a_quote
    by (simp add: strategies_initial_def)
  have q: "attribute_value (proxyB ?u) = proxyB ?u"
    by (simp add: attribute_value_def proxyB_def encodeURIComponent_def
        encodeURIComponent_char_def uriUnreserved_def percentByte_def hexDigit_def)
  have h: "inline_onerror ?u = Broken"
    by (simp add: inline_onerror_def intact_char_def)
  have i: "productImage ((example_product 1 ''a'' 1)\<lparr>images := [?x]\<rparr>) 0 ?x
      = Some \<lparr>src = proxyB ?u, classList = [''product-image''],
                  style_display = [], onerror = None,
                  wrapper = Some \<lparr>data_image_index = 0, data_product_id = 1,
                                   data_attempt = Some 0, innerHTML_w = ImageAndOverlay\<rparr>\<rparr>"
    unfolding productImage_def Let_def cleanImg_bracket_http_a_quote g q h
    by (simp add: with_onerror_def example_product_def)
  have r: "createProductRow example_platform ((example_product 1 ''a'' 1)\<lparr>images := [?x]\<rparr>)
     = Some \<lparr>row_product = (example_product 1 ''a'' 1)\<lparr>images := [?x]\<rparr>,
             category_image = None,
             product_images =
               [\<lparr>src = proxyB ?u, classList = [''product-image''],
                  style_display = [], onerror = None,
                  wrapper = Some \<lparr>data_image_index = 0, data_product_id = 1,
                                   data_attempt = Some 0, innerHTML_w = ImageAndOverlay\<rparr>\<rparr>]\<rparr>"
    using v i by (simp add: createProductRow_def Let_def example_product_def)
  have n: "proxyB ?u \<noteq> proxyA ?u" by (simp add: proxyA_def proxyB_def)
  from r n show ?thesis by (simp add: error_event_def)
qed

section \<open>Image resolver: category images\<close>




end
